theory Spec2Isabelle
  imports Main "HOL-Library.Word" "HOL-Library.AList"
begin

section \<open>VSyncReactor (services/surfaceflinger/Scheduler/VSyncReactor.cpp)\<close>

text \<open>
  A shallow embedding of \<^verbatim>\<open>VSyncReactor\<close> and of its nested \<^verbatim>\<open>CallbackRepeater\<close>.
  Every public operation of the reactor runs under \<^verbatim>\<open>mMutex\<close>, so an operation is
  modelled as one atomic function from the state before the call to the state after it.

  The reactor owns three collaborators whose implementations are behind abstract
  interfaces (\<^verbatim>\<open>VSyncTracker\<close>, \<^verbatim>\<open>VSyncDispatch\<close>, \<^verbatim>\<open>Clock\<close>). The model keeps, for the
  tracker and for the dispatcher, the list of mutating calls the reactor has made on
  them so far, oldest first; what they answer is a parameter of the model:
  \<^item> \<open>cp\<close>, the answer of \<^verbatim>\<open>mTracker->currentPeriod()\<close> as a function of the calls the
    tracker has received;
  \<^item> \<open>sched\<close>, the answer of \<^verbatim>\<open>mRegistration.schedule(..)\<close> as a function of the calls
    the dispatcher has received, the scheduling request included;
  \<^item> \<open>now\<close>, the reading of \<^verbatim>\<open>mClock->now()\<close> taken by the call;
  \<^item> \<open>sig\<close>, the answer of \<^verbatim>\<open>FenceTime::getCachedSignalTime()\<close> for every fence during
    one call of \<^verbatim>\<open>addPresentFence\<close>.
\<close>

subsection \<open>Values\<close>

text \<open>\<^verbatim>\<open>nsecs_t\<close> is \<^verbatim>\<open>int64_t\<close>: a 64-bit word read in two's complement (\<open>sint\<close>).\<close>

type_synonym nsecs_t = "64 word"

text \<open>A \<^verbatim>\<open>std::shared_ptr<FenceTime>\<close> that is not null, by the identity of its fence.\<close>

type_synonym fence = nat

text \<open>A \<^verbatim>\<open>DispSync::Callback*\<close>, the key of \<^verbatim>\<open>mCallbacks\<close>.\<close>

type_synonym callback = nat

text \<open>
  Modelled from the spec: the two sentinels of \<^verbatim>\<open>Fence\<close> (declared in ui/Fence.h, which is
  not part of the sources at hand). The signal time of a fence is exactly one of PENDING,
  INVALID, or a concrete timestamp; the sentinels are the largest \<^verbatim>\<open>nsecs_t\<close> and \<open>-1\<close>.
\<close>

definition SIGNAL_TIME_PENDING :: nsecs_t where
  "SIGNAL_TIME_PENDING = 0x7FFFFFFFFFFFFFFF"

definition SIGNAL_TIME_INVALID :: nsecs_t where
  "SIGNAL_TIME_INVALID = - 1"

text \<open>
  Modelled from the spec: the result of the dispatcher's \<^verbatim>\<open>schedule\<close> (declared in
  VSyncDispatch.h): \<^verbatim>\<open>schedule(workload, notBefore) \<rightarrow> {Scheduled | Error}\<close>.
\<close>

datatype ScheduleResult = Scheduled | Error

text \<open>The two values of \<^verbatim>\<open>status_t\<close> the reactor returns.\<close>

datatype status_t = NO_ERROR | NO_MEMORY

text \<open>
  The ways a call does not return: the three \<^verbatim>\<open>LOG_ALWAYS_FATAL_IF\<close> aborts of the file,
  and \<^verbatim>\<open>mUnfiredFences.erase(mUnfiredFences.begin())\<close> on an empty vector, which C++
  leaves undefined.
\<close>

datatype failure =
    ErrorSchedulingCallback
  | CallbackAlreadyStopped
  | CallbackNotRegistered
  | EraseFromEmptyBacklog

text \<open>
  Calls received by the tracker (\<^verbatim>\<open>addVsyncTimestamp\<close>, \<^verbatim>\<open>setPeriod\<close>) and by the
  dispatcher through a repeater's \<^verbatim>\<open>mRegistration\<close>: its construction with the callback's
  name (lines 50-53), \<^verbatim>\<open>schedule(workload, earliestVsync)\<close> (line 68) and \<^verbatim>\<open>cancel()\<close>
  (line 85), each tagged with the callback of the repeater that made it.
\<close>

datatype tracker_call = AddVsyncTimestamp nsecs_t | SetPeriod nsecs_t

datatype dispatch_call =
    Register callback string
  | Schedule callback nsecs_t nsecs_t
  | Cancel callback

subsection \<open>CallbackRepeater\<close>

record CallbackRepeater =
  mCallback :: callback
  mStopped :: bool
  mPeriod :: nsecs_t
  mOffset :: nsecs_t
  mLastCallTime :: nsecs_t

text \<open>The constructor (lines 47-56); \<^verbatim>\<open>mStopped\<close> starts as \<^verbatim>\<open>false\<close> (line 114).\<close>

definition CallbackRepeater_new :: "callback \<Rightarrow> nsecs_t \<Rightarrow> nsecs_t \<Rightarrow> nsecs_t \<Rightarrow> CallbackRepeater" where
  "CallbackRepeater_new cb period offset notBefore =
     \<lparr>mCallback = cb, mStopped = False, mPeriod = period, mOffset = offset,
      mLastCallTime = notBefore\<rparr>"

text \<open>Line 108.\<close>

definition calculateWorkload :: "CallbackRepeater \<Rightarrow> nsecs_t" where
  "calculateWorkload r = mPeriod r - mOffset r"

text \<open>Lines 63-71. The repeater and the dispatcher's calls before, and after.\<close>

definition CallbackRepeater_start ::
  "(dispatch_call list \<Rightarrow> ScheduleResult) \<Rightarrow> nsecs_t \<Rightarrow> CallbackRepeater \<times> dispatch_call list
    \<Rightarrow> failure + (CallbackRepeater \<times> dispatch_call list)" where
  "CallbackRepeater_start sched offset rd =
     (let r = (fst rd)\<lparr>mStopped := False, mOffset := offset\<rparr>;
          d = snd rd @ [Schedule (mCallback r) (calculateWorkload r) (mLastCallTime r)];
          schedule_result = sched d
      in if schedule_result \<noteq> Scheduled then Inl ErrorSchedulingCallback
         else Inr (r, d))"

text \<open>Lines 73-79.\<close>

definition CallbackRepeater_setPeriod :: "nsecs_t \<Rightarrow> CallbackRepeater \<Rightarrow> CallbackRepeater" where
  "CallbackRepeater_setPeriod period r =
     (if period = mPeriod r then r else r\<lparr>mPeriod := period\<rparr>)"

text \<open>Lines 81-86.\<close>

definition CallbackRepeater_stop ::
  "CallbackRepeater \<times> dispatch_call list \<Rightarrow> failure + (CallbackRepeater \<times> dispatch_call list)" where
  "CallbackRepeater_stop rd =
     (if mStopped (fst rd) then Inl CallbackAlreadyStopped
      else Inr ((fst rd)\<lparr>mStopped := True\<rparr>, snd rd @ [Cancel (mCallback (fst rd))]))"

subsection \<open>The reactor's state\<close>

text \<open>
  \<^verbatim>\<open>mCallbacks\<close> is a \<^verbatim>\<open>std::unordered_map\<close> from callback to repeater: an association
  list whose keys are distinct, so that its length is the map's \<^verbatim>\<open>size()\<close>.
  \<^verbatim>\<open>mPendingLimit\<close> is a \<^verbatim>\<open>size_t\<close> that is only compared with a vector's size.
\<close>

record VSyncReactor =
  mTracker :: "tracker_call list"
  mDispatch :: "dispatch_call list"
  mPendingLimit :: nat
  mUnfiredFences :: "fence list"
  mIgnorePresentFences :: bool
  mPeriodTransitioningTo :: "nsecs_t option"
  mLastHwVsync :: "nsecs_t option"
  mMoreSamplesNeeded :: bool
  mCallbacks :: "(callback \<times> CallbackRepeater) list"

subsection \<open>Present fences\<close>

text \<open>
  The loop of lines 135-145 over \<^verbatim>\<open>mUnfiredFences\<close>: a pending fence stays, an invalid one
  is erased, a signalled one is erased after its time went to the tracker. The result is
  the vector and the tracker's calls after the loop.
\<close>

fun drainUnfiredFences ::
  "(fence \<Rightarrow> nsecs_t) \<Rightarrow> fence list \<Rightarrow> tracker_call list \<Rightarrow> fence list \<times> tracker_call list" where
  "drainUnfiredFences sig [] tr = ([], tr)"
| "drainUnfiredFences sig (f # fs) tr =
     (let time = sig f
      in if time = SIGNAL_TIME_PENDING then
           (let rest = drainUnfiredFences sig fs tr in (f # fst rest, snd rest))
         else if time = SIGNAL_TIME_INVALID then drainUnfiredFences sig fs tr
         else drainUnfiredFences sig fs (tr @ [AddVsyncTimestamp time]))"

text \<open>Lines 120-157. \<open>None\<close> is the null pointer.\<close>

definition addPresentFence ::
  "(fence \<Rightarrow> nsecs_t) \<Rightarrow> fence option \<Rightarrow> VSyncReactor \<Rightarrow> failure + (bool \<times> VSyncReactor)" where
  "addPresentFence sig fence s =
     (case fence of
        None \<Rightarrow> Inr (False, s)
      | Some f \<Rightarrow>
          (let signalTime = sig f
           in if signalTime = SIGNAL_TIME_INVALID then Inr (True, s)
              else if mIgnorePresentFences s then Inr (True, s)
              else
                (let drained = drainUnfiredFences sig (mUnfiredFences s) (mTracker s);
                     unfired = fst drained;
                     tracker = snd drained
                 in if signalTime = SIGNAL_TIME_PENDING then
                      (if mPendingLimit s = length unfired then
                         (case unfired of
                            [] \<Rightarrow> Inl EraseFromEmptyBacklog
                          | oldest # rest \<Rightarrow>
                              Inr (mMoreSamplesNeeded s,
                                   s\<lparr>mTracker := tracker, mUnfiredFences := rest @ [f]\<rparr>))
                       else
                         Inr (mMoreSamplesNeeded s,
                              s\<lparr>mTracker := tracker, mUnfiredFences := unfired @ [f]\<rparr>))
                    else
                      Inr (mMoreSamplesNeeded s,
                           s\<lparr>mTracker := tracker @ [AddVsyncTimestamp signalTime],
                             mUnfiredFences := unfired\<rparr>))))"

text \<open>Lines 159-165.\<close>

definition setIgnorePresentFences :: "bool \<Rightarrow> VSyncReactor \<Rightarrow> VSyncReactor" where
  "setIgnorePresentFences ignoration s =
     (let s1 = s\<lparr>mIgnorePresentFences := ignoration\<rparr>
      in if mIgnorePresentFences s1 = True then s1\<lparr>mUnfiredFences := []\<rparr> else s1)"

text \<open>A sequence of calls of \<^verbatim>\<open>addPresentFence\<close>, each with the fences' signal times at
  that call; it stops at the first call that does not return.\<close>

fun addPresentFences ::
  "((fence \<Rightarrow> nsecs_t) \<times> fence option) list \<Rightarrow> VSyncReactor \<Rightarrow> failure + VSyncReactor" where
  "addPresentFences [] s = Inr s"
| "addPresentFences (c # cs) s =
     (case addPresentFence (fst c) (snd c) s of
        Inl e \<Rightarrow> Inl e
      | Inr r \<Rightarrow> addPresentFences cs (snd r))"

subsection \<open>Period transitions\<close>

text \<open>Lines 198-200.\<close>

definition getPeriod :: "(tracker_call list \<Rightarrow> nsecs_t) \<Rightarrow> VSyncReactor \<Rightarrow> nsecs_t" where
  "getPeriod cp s = cp (mTracker s)"

text \<open>Lines 177-180.\<close>

definition startPeriodTransition :: "nsecs_t \<Rightarrow> VSyncReactor \<Rightarrow> VSyncReactor" where
  "startPeriodTransition newPeriod s =
     s\<lparr>mPeriodTransitioningTo := Some newPeriod, mMoreSamplesNeeded := True\<rparr>"

text \<open>Lines 182-186.\<close>

definition endPeriodTransition :: "VSyncReactor \<Rightarrow> VSyncReactor" where
  "endPeriodTransition s =
     s\<lparr>mPeriodTransitioningTo := None, mLastHwVsync := None, mMoreSamplesNeeded := False\<rparr>"

text \<open>Lines 188-196.\<close>

definition setPeriod :: "(tracker_call list \<Rightarrow> nsecs_t) \<Rightarrow> nsecs_t \<Rightarrow> VSyncReactor \<Rightarrow> VSyncReactor" where
  "setPeriod cp period s =
     (let s1 = s\<lparr>mLastHwVsync := None\<rparr>
      in if period = getPeriod cp s1 then endPeriodTransition s1
         else startPeriodTransition period s1)"

text \<open>
  \<^verbatim>\<open>std::abs\<close> on \<^verbatim>\<open>int64_t\<close>, in two's complement: the most negative value is its own
  negation (C++ leaves that case undefined).
\<close>

definition nsecs_abs :: "nsecs_t \<Rightarrow> nsecs_t" where
  "nsecs_abs x = (if x <s 0 then - x else x)"

text \<open>
  The integers an \<^verbatim>\<open>int64_t\<close> holds, and those whose absolute value it holds too (C++
  leaves a signed operation whose result is outside undefined; the words wrap around).
\<close>

definition int64_range :: "int \<Rightarrow> bool" where
  "int64_range i \<longleftrightarrow> - (2 ^ 63) \<le> i \<and> i < 2 ^ 63"

definition abs_range :: "int \<Rightarrow> bool" where
  "abs_range i \<longleftrightarrow> - (2 ^ 63) < i \<and> i < 2 ^ 63"

text \<open>Lines 206-212. The subtractions wrap around.\<close>

definition periodChangeDetected ::
  "(tracker_call list \<Rightarrow> nsecs_t) \<Rightarrow> nsecs_t \<Rightarrow> VSyncReactor \<Rightarrow> bool" where
  "periodChangeDetected cp vsync_timestamp s =
     (case mLastHwVsync s of
        None \<Rightarrow> False
      | Some lastHwVsync \<Rightarrow>
          (case mPeriodTransitioningTo s of
             None \<Rightarrow> False
           | Some periodTransitioningTo \<Rightarrow>
               (let distance = vsync_timestamp - lastHwVsync
                in nsecs_abs (distance - periodTransitioningTo)
                     <s nsecs_abs (distance - getPeriod cp s))))"

text \<open>
  Lines 214-237. The result is the returned \<^verbatim>\<open>mMoreSamplesNeeded\<close>, the value written to
  \<^verbatim>\<open>*periodFlushed\<close>, and the state. In the first branch \<^verbatim>\<open>mPeriodTransitioningTo\<close> holds
  a value, since \<^verbatim>\<open>periodChangeDetected\<close> returned true.
\<close>

definition addResyncSample ::
  "(tracker_call list \<Rightarrow> nsecs_t) \<Rightarrow> nsecs_t \<Rightarrow> VSyncReactor \<Rightarrow> bool \<times> bool \<times> VSyncReactor" where
  "addResyncSample cp timestamp s =
     (let branch =
            (if periodChangeDetected cp timestamp s then
               (case mPeriodTransitioningTo s of
                  Some p \<Rightarrow>
                    (endPeriodTransition
                       (s\<lparr>mTracker := mTracker s @ [SetPeriod p],
                          mCallbacks :=
                            map (\<lambda>entry. (fst entry, CallbackRepeater_setPeriod p (snd entry)))
                              (mCallbacks s)\<rparr>),
                     True)
                | None \<Rightarrow> (s, False))
             else if mPeriodTransitioningTo s \<noteq> None then
               (s\<lparr>mLastHwVsync := Some timestamp, mMoreSamplesNeeded := True\<rparr>, False)
             else (s\<lparr>mMoreSamplesNeeded := False\<rparr>, False));
          s1 = fst branch;
          periodFlushed = snd branch;
          s2 = s1\<lparr>mTracker := mTracker s1 @ [AddVsyncTimestamp timestamp]\<rparr>
      in (mMoreSamplesNeeded s2, periodFlushed, s2))"

text \<open>The vsync samples among the calls a tracker has received, in the order received.\<close>

fun vsyncTimestamps :: "tracker_call list \<Rightarrow> nsecs_t list" where
  "vsyncTimestamps [] = []"
| "vsyncTimestamps (AddVsyncTimestamp t # cs) = t # vsyncTimestamps cs"
| "vsyncTimestamps (SetPeriod p # cs) = vsyncTimestamps cs"

subsection \<open>Listeners\<close>

text \<open>\<^verbatim>\<open>it->second->start(phase)\<close> on the entry of \<open>cb\<close>, which holds \<open>r\<close>.\<close>

definition startEntry ::
  "(dispatch_call list \<Rightarrow> ScheduleResult) \<Rightarrow> nsecs_t \<Rightarrow> callback \<Rightarrow> CallbackRepeater \<Rightarrow> VSyncReactor
    \<Rightarrow> failure + (status_t \<times> VSyncReactor)" where
  "startEntry sched phase cb r s =
     (case CallbackRepeater_start sched phase (r, mDispatch s) of
        Inl e \<Rightarrow> Inl e
      | Inr rd \<Rightarrow>
          Inr (NO_ERROR,
               s\<lparr>mDispatch := snd rd, mCallbacks := AList.update cb (fst rd) (mCallbacks s)\<rparr>))"

text \<open>
  Lines 239-261. A new repeater registers with the dispatcher when it is constructed
  (the constructor of its \<^verbatim>\<open>mRegistration\<close>), and \<^verbatim>\<open>emplace\<close> adds the new key.
\<close>

definition addEventListener ::
  "(tracker_call list \<Rightarrow> nsecs_t) \<Rightarrow> (dispatch_call list \<Rightarrow> ScheduleResult) \<Rightarrow> nsecs_t
    \<Rightarrow> string \<Rightarrow> nsecs_t \<Rightarrow> callback \<Rightarrow> VSyncReactor \<Rightarrow> failure + (status_t \<times> VSyncReactor)" where
  "addEventListener cp sched now name phase cb s =
     (case map_of (mCallbacks s) cb of
        None \<Rightarrow>
          (if 3 \<le> length (mCallbacks s) then Inr (NO_MEMORY, s)
           else
             (let period = cp (mTracker s);
                  repeater = CallbackRepeater_new cb period phase now;
                  s1 = s\<lparr>mDispatch := mDispatch s @ [Register cb name],
                         mCallbacks := AList.update cb repeater (mCallbacks s)\<rparr>
              in startEntry sched phase cb repeater s1))
      | Some repeater \<Rightarrow> startEntry sched phase cb repeater s)"

text \<open>Lines 263-271.\<close>

definition removeEventListener :: "callback \<Rightarrow> VSyncReactor \<Rightarrow> failure + (status_t \<times> VSyncReactor)" where
  "removeEventListener cb s =
     (case map_of (mCallbacks s) cb of
        None \<Rightarrow> Inl CallbackNotRegistered
      | Some repeater \<Rightarrow>
          (case CallbackRepeater_stop (repeater, mDispatch s) of
             Inl e \<Rightarrow> Inl e
           | Inr rd \<Rightarrow>
               Inr (NO_ERROR,
                    s\<lparr>mDispatch := snd rd,
                      mCallbacks := AList.update cb (fst rd) (mCallbacks s)\<rparr>)))"

text \<open>Lines 273-280.\<close>

definition changePhaseOffset ::
  "(dispatch_call list \<Rightarrow> ScheduleResult) \<Rightarrow> callback \<Rightarrow> nsecs_t \<Rightarrow> VSyncReactor
    \<Rightarrow> failure + (status_t \<times> VSyncReactor)" where
  "changePhaseOffset sched cb phase s =
     (case map_of (mCallbacks s) cb of
        None \<Rightarrow> Inl CallbackNotRegistered
      | Some repeater \<Rightarrow> startEntry sched phase cb repeater s)"

subsection \<open>Concrete states and collaborators\<close>

text \<open>A tracker that reports 60 Hz, a dispatcher that accepts every request, and fences
  that are all pending, all signalled at time 1000, or all invalid.\<close>

definition ex_currentPeriod :: "tracker_call list \<Rightarrow> nsecs_t" where
  "ex_currentPeriod calls = 16666666"

definition ex_sched :: "dispatch_call list \<Rightarrow> ScheduleResult" where
  "ex_sched calls = Scheduled"

definition ex_pending :: "fence \<Rightarrow> nsecs_t" where
  "ex_pending f = SIGNAL_TIME_PENDING"

definition ex_signalled :: "fence \<Rightarrow> nsecs_t" where
  "ex_signalled f = 1000"

definition ex_invalid :: "fence \<Rightarrow> nsecs_t" where
  "ex_invalid f = SIGNAL_TIME_INVALID"

text \<open>A repeater at 60 Hz with a phase of 4 ms; a reactor in the middle of a period
  transition to 90 Hz, with two fences in its backlog and one listener; a reactor at rest;
  and a reactor with three listeners, the second of them stopped.\<close>

definition ex_repeater :: "callback \<Rightarrow> bool \<Rightarrow> CallbackRepeater" where
  "ex_repeater cb stopped =
     \<lparr>mCallback = cb, mStopped = stopped, mPeriod = 16666666, mOffset = 4000000,
      mLastCallTime = 1000\<rparr>"

definition ex_reactor :: VSyncReactor where
  "ex_reactor =
     \<lparr>mTracker = [], mDispatch = [], mPendingLimit = 2, mUnfiredFences = [1, 2],
      mIgnorePresentFences = False, mPeriodTransitioningTo = Some 11111111,
      mLastHwVsync = Some 5000, mMoreSamplesNeeded = True,
      mCallbacks = [(7, ex_repeater 7 False)]\<rparr>"

definition ex_idle_reactor :: VSyncReactor where
  "ex_idle_reactor =
     \<lparr>mTracker = [], mDispatch = [], mPendingLimit = 2, mUnfiredFences = [],
      mIgnorePresentFences = False, mPeriodTransitioningTo = None,
      mLastHwVsync = None, mMoreSamplesNeeded = False, mCallbacks = []\<rparr>"

definition ex_full_reactor :: VSyncReactor where
  "ex_full_reactor =
     \<lparr>mTracker = [], mDispatch = [], mPendingLimit = 2, mUnfiredFences = [],
      mIgnorePresentFences = False, mPeriodTransitioningTo = None,
      mLastHwVsync = None, mMoreSamplesNeeded = False,
      mCallbacks = [(7, ex_repeater 7 False), (8, ex_repeater 8 True), (9, ex_repeater 9 False)]\<rparr>"

section \<open>Properties\<close>

text \<open>
  C7: \<^verbatim>\<open>setPeriod(x)\<close> always leaves \<^verbatim>\<open>mLastHwVsync\<close> empty; and when \<open>x\<close> is the tracker's
  current period, the state afterwards is the state before with \<^verbatim>\<open>mPeriodTransitioningTo\<close>
  and \<^verbatim>\<open>mLastHwVsync\<close> empty and \<^verbatim>\<open>mMoreSamplesNeeded\<close> false: no transition is in flight,
  and the repeaters, the tracker, the dispatcher, the backlog and every other field are
  as they were.
\<close>

theorem setPeriod_clears_anchor_and_same_period_ends_transition:
  "mLastHwVsync (setPeriod cp x s) = None \<and>
   (x = getPeriod cp s \<longrightarrow>
      setPeriod cp x s =
        s\<lparr>mPeriodTransitioningTo := None, mLastHwVsync := None, mMoreSamplesNeeded := False\<rparr>
      \<and> mPeriodTransitioningTo (setPeriod cp x s) = None
      \<and> mCallbacks (setPeriod cp x s) = mCallbacks s
      \<and> mTracker (setPeriod cp x s) = mTracker s
      \<and> mDispatch (setPeriod cp x s) = mDispatch s
      \<and> mUnfiredFences (setPeriod cp x s) = mUnfiredFences s)"
  by (simp add: setPeriod_def getPeriod_def endPeriodTransition_def startPeriodTransition_def
        Let_def)

theorem setPeriod_clears_anchor_and_same_period_ends_transition_witness:
  "mLastHwVsync (setPeriod ex_currentPeriod 16666666 ex_reactor) = None \<and>
   setPeriod ex_currentPeriod 16666666 ex_reactor =
     ex_reactor\<lparr>mPeriodTransitioningTo := None, mLastHwVsync := None,
                mMoreSamplesNeeded := False\<rparr> \<and>
   mCallbacks (setPeriod ex_currentPeriod 16666666 ex_reactor) = mCallbacks ex_reactor"
  using setPeriod_clears_anchor_and_same_period_ends_transition
          [of ex_currentPeriod 16666666 ex_reactor]
  by (simp add: getPeriod_def ex_currentPeriod_def)

subsection \<open>Arithmetic of \<^verbatim>\<open>nsecs_t\<close>\<close>

lemma sint_sub_in_range:
  fixes a b :: nsecs_t
  assumes "int64_range (sint a - sint b)"
  shows "sint (a - b) = sint a - sint b"
  using assms by (simp add: int64_range_def sint_word_ariths signed_take_bit_int_eq_self)

lemma sint_nsecs_abs:
  fixes x :: nsecs_t
  assumes "sint x \<noteq> - (2 ^ 63)"
  shows "sint (nsecs_abs x) = \<bar>sint x\<bar>"
proof -
  have lo: "- (2 ^ 63) \<le> sint x" using sint_ge [of x] by simp
  have hi: "sint x < 2 ^ 63" using sint_lt [of x] by simp
  have neg: "sint (- x) = - sint x"
    using assms lo hi by (simp add: sint_word_ariths signed_take_bit_int_eq_self)
  show ?thesis
    using neg by (simp add: nsecs_abs_def word_sless_alt)
qed

lemma abs_distance:
  fixes t a p :: nsecs_t
  assumes d: "int64_range (sint t - sint a)" and r: "abs_range (sint t - sint a - sint p)"
  shows "sint (nsecs_abs (t - a - p)) = \<bar>sint t - sint a - sint p\<bar>"
proof -
  have 1: "sint (t - a) = sint t - sint a" using d by (rule sint_sub_in_range)
  have "int64_range (sint (t - a) - sint p)"
    using r by (simp add: 1 abs_range_def int64_range_def)
  then have 2: "sint (t - a - p) = sint t - sint a - sint p"
    using sint_sub_in_range [of "t - a" p] by (simp add: 1)
  have "sint (t - a - p) \<noteq> - (2 ^ 63)" using r by (simp add: 2 abs_range_def)
  then show ?thesis using sint_nsecs_abs [of "t - a - p"] by (simp add: 2)
qed

subsection \<open>Resync samples\<close>

lemma CallbackRepeater_setPeriod_eq: "CallbackRepeater_setPeriod p r = r\<lparr>mPeriod := p\<rparr>"
  by (simp add: CallbackRepeater_setPeriod_def)

text \<open>
  C3: with a transition to \<open>Pnew\<close> in flight, the anchor \<open>A\<close> present and the tracker's
  current period \<open>Pold\<close>, a sample \<open>t\<close> commits the transition exactly when
  \<open>|(t - A) - Pnew| < |(t - A) - Pold|\<close> in the 64-bit arithmetic of the code. On commit
  the tracker receives \<^verbatim>\<open>setPeriod(Pnew)\<close> and then the sample, every repeater's period
  becomes \<open>Pnew\<close>, the transition fields are cleared and \<^verbatim>\<open>periodFlushed\<close> is true;
  otherwise the target stays, the anchor becomes \<open>t\<close>, more samples are wanted and
  \<^verbatim>\<open>periodFlushed\<close> is false. Whenever the three differences are representable (no
  signed overflow), the 64-bit comparison is the comparison of the integers.
\<close>

theorem addResyncSample_tie_break:
  assumes tr: "mPeriodTransitioningTo s = Some Pnew"
    and an: "mLastHwVsync s = Some A"
    and ol: "getPeriod cp s = Pold"
  shows "(periodChangeDetected cp t s \<longleftrightarrow> nsecs_abs (t - A - Pnew) <s nsecs_abs (t - A - Pold)) \<and>
    addResyncSample cp t s =
      (if nsecs_abs (t - A - Pnew) <s nsecs_abs (t - A - Pold)
       then (False, True,
             s\<lparr>mTracker := mTracker s @ [SetPeriod Pnew, AddVsyncTimestamp t],
               mCallbacks :=
                 map (\<lambda>entry. (fst entry, (snd entry)\<lparr>mPeriod := Pnew\<rparr>)) (mCallbacks s),
               mPeriodTransitioningTo := None, mLastHwVsync := None,
               mMoreSamplesNeeded := False\<rparr>)
       else (True, False,
             s\<lparr>mTracker := mTracker s @ [AddVsyncTimestamp t],
               mLastHwVsync := Some t, mMoreSamplesNeeded := True\<rparr>)) \<and>
    (int64_range (sint t - sint A) \<and> abs_range (sint t - sint A - sint Pnew)
       \<and> abs_range (sint t - sint A - sint Pold) \<longrightarrow>
     (nsecs_abs (t - A - Pnew) <s nsecs_abs (t - A - Pold)
        \<longleftrightarrow> \<bar>sint t - sint A - sint Pnew\<bar> < \<bar>sint t - sint A - sint Pold\<bar>))"
proof -
  have det: "periodChangeDetected cp t s
      \<longleftrightarrow> nsecs_abs (t - A - Pnew) <s nsecs_abs (t - A - Pold)"
    using tr an ol by (simp add: periodChangeDetected_def Let_def)
  have res: "addResyncSample cp t s =
      (if nsecs_abs (t - A - Pnew) <s nsecs_abs (t - A - Pold)
       then (False, True,
             s\<lparr>mTracker := mTracker s @ [SetPeriod Pnew, AddVsyncTimestamp t],
               mCallbacks :=
                 map (\<lambda>entry. (fst entry, (snd entry)\<lparr>mPeriod := Pnew\<rparr>)) (mCallbacks s),
               mPeriodTransitioningTo := None, mLastHwVsync := None,
               mMoreSamplesNeeded := False\<rparr>)
       else (True, False,
             s\<lparr>mTracker := mTracker s @ [AddVsyncTimestamp t],
               mLastHwVsync := Some t, mMoreSamplesNeeded := True\<rparr>))"
    using tr det
    by (simp add: addResyncSample_def Let_def endPeriodTransition_def
          CallbackRepeater_setPeriod_eq)
  have math: "nsecs_abs (t - A - Pnew) <s nsecs_abs (t - A - Pold)
        \<longleftrightarrow> \<bar>sint t - sint A - sint Pnew\<bar> < \<bar>sint t - sint A - sint Pold\<bar>"
    if "int64_range (sint t - sint A)" "abs_range (sint t - sint A - sint Pnew)"
       "abs_range (sint t - sint A - sint Pold)"
    using that by (simp add: word_sless_alt abs_distance)
  show ?thesis using det res math by blast
qed

text \<open>At 60 Hz with a transition to 90 Hz in flight and the anchor at 5000, the sample
  one 90 Hz period after the anchor commits; the one a 60 Hz period after it does not.\<close>

theorem addResyncSample_tie_break_witness:
  "mPeriodTransitioningTo ex_reactor = Some 11111111 \<and>
   mLastHwVsync ex_reactor = Some 5000 \<and>
   getPeriod ex_currentPeriod ex_reactor = 16666666 \<and>
   int64_range (sint (11116111 :: nsecs_t) - sint (5000 :: nsecs_t)) \<and>
   abs_range (sint (11116111 :: nsecs_t) - sint (5000 :: nsecs_t) - sint (11111111 :: nsecs_t)) \<and>
   abs_range (sint (11116111 :: nsecs_t) - sint (5000 :: nsecs_t) - sint (16666666 :: nsecs_t)) \<and>
   periodChangeDetected ex_currentPeriod 11116111 ex_reactor \<and>
   addResyncSample ex_currentPeriod 11116111 ex_reactor =
     (False, True,
      ex_reactor\<lparr>mTracker := [SetPeriod 11111111, AddVsyncTimestamp 11116111],
                 mCallbacks := [(7, (ex_repeater 7 False)\<lparr>mPeriod := 11111111\<rparr>)],
                 mPeriodTransitioningTo := None, mLastHwVsync := None,
                 mMoreSamplesNeeded := False\<rparr>) \<and>
   \<not> periodChangeDetected ex_currentPeriod 16671666 ex_reactor \<and>
   addResyncSample ex_currentPeriod 16671666 ex_reactor =
     (True, False,
      ex_reactor\<lparr>mTracker := [AddVsyncTimestamp 16671666],
                 mLastHwVsync := Some 16671666, mMoreSamplesNeeded := True\<rparr>)"
proof -
  have h1: "mPeriodTransitioningTo ex_reactor = Some 11111111"
    and h2: "mLastHwVsync ex_reactor = Some 5000"
    and h3: "getPeriod ex_currentPeriod ex_reactor = 16666666"
    by (simp_all add: ex_reactor_def getPeriod_def ex_currentPeriod_def)
  have r: "int64_range (sint (11116111 :: nsecs_t) - sint (5000 :: nsecs_t))"
    "abs_range (sint (11116111 :: nsecs_t) - sint (5000 :: nsecs_t) - sint (11111111 :: nsecs_t))"
    "abs_range (sint (11116111 :: nsecs_t) - sint (5000 :: nsecs_t) - sint (16666666 :: nsecs_t))"
    by (simp_all add: int64_range_def abs_range_def)
  have c: "nsecs_abs (11116111 - 5000 - 11111111) <s nsecs_abs (11116111 - 5000 - 16666666)"
    by (simp add: nsecs_abs_def word_sless_alt)
  have n: "\<not> nsecs_abs (16671666 - 5000 - 11111111) <s nsecs_abs (16671666 - 5000 - 16666666)"
    by (simp add: nsecs_abs_def word_sless_alt)
  have m: "mTracker ex_reactor = []"
    "mCallbacks ex_reactor = [(7, ex_repeater 7 False)]"
    by (simp_all add: ex_reactor_def)
  show ?thesis
    using addResyncSample_tie_break [OF h1 h2 h3, of 11116111]
      addResyncSample_tie_break [OF h1 h2 h3, of 16671666] h1 h2 h3 r c n
    by (simp add: m)
qed

lemma periodChangeDetected_target:
  "periodChangeDetected cp t s \<Longrightarrow> mPeriodTransitioningTo s \<noteq> None"
  by (auto simp add: periodChangeDetected_def split: option.splits)

lemma vsyncTimestamps_append:
  "vsyncTimestamps (xs @ ys) = vsyncTimestamps xs @ vsyncTimestamps ys"
  by (induction xs rule: vsyncTimestamps.induct) simp_all

text \<open>
  C5: whatever branch \<^verbatim>\<open>addResyncSample\<close> takes, the vsync samples the tracker has
  received afterwards are those it had received before followed by the timestamp, once,
  and that sample is the last call the tracker received; with no transition in flight the
  call returns false (no more samples wanted) and \<^verbatim>\<open>periodFlushed\<close> is false.
\<close>

theorem addResyncSample_forwards_timestamp_once:
  "vsyncTimestamps (mTracker (snd (snd (addResyncSample cp t s))))
     = vsyncTimestamps (mTracker s) @ [t] \<and>
   last (mTracker (snd (snd (addResyncSample cp t s)))) = AddVsyncTimestamp t \<and>
   (mPeriodTransitioningTo s = None \<longrightarrow>
      fst (addResyncSample cp t s) = False \<and> fst (snd (addResyncSample cp t s)) = False)"
  by (simp add: addResyncSample_def Let_def endPeriodTransition_def vsyncTimestamps_append
        periodChangeDetected_def split: option.split)

theorem addResyncSample_forwards_timestamp_once_witness:
  "mPeriodTransitioningTo ex_idle_reactor = None \<and>
   addResyncSample ex_currentPeriod 16671666 ex_idle_reactor =
     (False, False, ex_idle_reactor\<lparr>mTracker := [AddVsyncTimestamp 16671666]\<rparr>)"
proof -
  have h: "mPeriodTransitioningTo ex_idle_reactor = None"
    by (simp add: ex_idle_reactor_def)
  have e: "addResyncSample ex_currentPeriod 16671666 ex_idle_reactor =
     (False, False, ex_idle_reactor\<lparr>mTracker := [AddVsyncTimestamp 16671666]\<rparr>)"
    by (simp add: addResyncSample_def periodChangeDetected_def Let_def ex_idle_reactor_def)
  show ?thesis
    using addResyncSample_forwards_timestamp_once [of ex_currentPeriod 16671666 ex_idle_reactor] h e
    by simp
qed

subsection \<open>Present fences\<close>

lemma pending_not_invalid: "SIGNAL_TIME_PENDING \<noteq> SIGNAL_TIME_INVALID"
  by (simp add: SIGNAL_TIME_INVALID_def SIGNAL_TIME_PENDING_def)

lemma drain_fst:
  "fst (drainUnfiredFences sig fs tr) = filter (\<lambda>f. sig f = SIGNAL_TIME_PENDING) fs"
  by (induction fs arbitrary: tr) (simp_all add: Let_def)

lemma drain_snd:
  "snd (drainUnfiredFences sig fs tr) =
     tr @ map (\<lambda>f. AddVsyncTimestamp (sig f))
            (filter (\<lambda>f. sig f \<noteq> SIGNAL_TIME_PENDING \<and> sig f \<noteq> SIGNAL_TIME_INVALID) fs)"
  by (induction fs arbitrary: tr) (simp_all add: Let_def)

lemma addPresentFence_pending:
  assumes "sig f = SIGNAL_TIME_PENDING" "\<not> mIgnorePresentFences s"
  shows "addPresentFence sig (Some f) s =
    (let kept = filter (\<lambda>g. sig g = SIGNAL_TIME_PENDING) (mUnfiredFences s);
         tracker = snd (drainUnfiredFences sig (mUnfiredFences s) (mTracker s))
     in if mPendingLimit s = length kept then
          (if kept = [] then Inl EraseFromEmptyBacklog
           else Inr (mMoreSamplesNeeded s,
                     s\<lparr>mTracker := tracker, mUnfiredFences := tl kept @ [f]\<rparr>))
        else Inr (mMoreSamplesNeeded s,
                  s\<lparr>mTracker := tracker, mUnfiredFences := kept @ [f]\<rparr>))"
  using assms
  by (simp add: addPresentFence_def Let_def drain_fst pending_not_invalid split: list.split)

lemma addPresentFence_limit:
  assumes "length (mUnfiredFences s) \<le> mPendingLimit s"
    and "addPresentFence sig fence s = Inr r"
  shows "length (mUnfiredFences (snd r)) \<le> mPendingLimit (snd r)"
proof -
  have le: "length (filter (\<lambda>g. sig g = SIGNAL_TIME_PENDING) (mUnfiredFences s)) \<le> mPendingLimit s"
    by (rule le_trans [OF length_filter_le assms(1)])
  show ?thesis
    using assms le
    by (auto simp add: addPresentFence_def Let_def drain_fst
          split: option.splits if_splits list.splits)
qed

lemma addPresentFence_mPendingLimit:
  assumes "addPresentFence sig fence s = Inr r"
  shows "mPendingLimit (snd r) = mPendingLimit s"
  using assms
  by (auto simp add: addPresentFence_def Let_def split: option.splits if_splits list.splits)

lemma addPresentFence_returns:
  assumes "1 \<le> mPendingLimit s"
  shows "\<exists>r. addPresentFence sig fence s = Inr r"
  using assms
  by (auto simp add: addPresentFence_def Let_def split: option.splits list.splits)

lemma addPresentFences_limit:
  "length (mUnfiredFences s) \<le> mPendingLimit s \<Longrightarrow> addPresentFences calls s = Inr s'
    \<Longrightarrow> length (mUnfiredFences s') \<le> mPendingLimit s' \<and> mPendingLimit s' = mPendingLimit s"
proof (induction calls arbitrary: s)
  case Nil
  then show ?case by simp
next
  case (Cons c cs)
  from Cons.prems(2) obtain r where r: "addPresentFence (fst c) (snd c) s = Inr r"
    and rest: "addPresentFences cs (snd r) = Inr s'"
    by (auto split: sum.splits)
  have "length (mUnfiredFences (snd r)) \<le> mPendingLimit (snd r)"
    using Cons.prems(1) r by (rule addPresentFence_limit)
  moreover have "mPendingLimit (snd r) = mPendingLimit s"
    using r by (rule addPresentFence_mPendingLimit)
  ultimately show ?case using Cons.IH [OF _ rest] by simp
qed

lemma addPresentFences_returns:
  "1 \<le> mPendingLimit s \<Longrightarrow> \<exists>s'. addPresentFences calls s = Inr s'"
proof (induction calls arbitrary: s)
  case Nil
  then show ?case by simp
next
  case (Cons c cs)
  from addPresentFence_returns [OF Cons.prems]
  obtain r where r: "addPresentFence (fst c) (snd c) s = Inr r" by blast
  then have "1 \<le> mPendingLimit (snd r)"
    using Cons.prems addPresentFence_mPendingLimit [OF r] by simp
  from Cons.IH [OF this] show ?case by (simp add: r)
qed

text \<open>
  C1, as the code has it: while \<^verbatim>\<open>mIgnorePresentFences\<close> is set, \<^verbatim>\<open>addPresentFence\<close> on a
  fence that is not null returns \<^emph>\<open>true\<close> and leaves the whole state as it was (the
  backlog is not drained and the tracker receives nothing); and
  \<^verbatim>\<open>setIgnorePresentFences(true)\<close> empties the backlog and brings the reactor to such a
  state.
\<close>

theorem addPresentFence_ignoring_returns_true:
  "(mIgnorePresentFences s \<longrightarrow> addPresentFence sig (Some f) s = Inr (True, s)) \<and>
   mUnfiredFences (setIgnorePresentFences True s) = [] \<and>
   addPresentFence sig (Some f) (setIgnorePresentFences True s)
     = Inr (True, setIgnorePresentFences True s)"
  by (simp add: addPresentFence_def Let_def setIgnorePresentFences_def)

theorem addPresentFence_ignoring_returns_true_witness:
  "mIgnorePresentFences (ex_reactor\<lparr>mIgnorePresentFences := True\<rparr>) \<and>
   addPresentFence ex_signalled (Some 3) (ex_reactor\<lparr>mIgnorePresentFences := True\<rparr>)
     = Inr (True, ex_reactor\<lparr>mIgnorePresentFences := True\<rparr>)"
  using addPresentFence_ignoring_returns_true
          [of "ex_reactor\<lparr>mIgnorePresentFences := True\<rparr>" ex_signalled 3]
  by simp

text \<open>
  C1 as stated fails: after \<^verbatim>\<open>setIgnorePresentFences(true)\<close> a signalled fence gets the
  answer true, not false.
\<close>

theorem addPresentFence_ignoring_counterexample:
  "mIgnorePresentFences (setIgnorePresentFences True ex_reactor) \<and>
   addPresentFence ex_signalled (Some 3) (setIgnorePresentFences True ex_reactor)
     = Inr (True, setIgnorePresentFences True ex_reactor) \<and>
   addPresentFence ex_signalled (Some 3) (setIgnorePresentFences True ex_reactor)
     \<noteq> Inr (False, setIgnorePresentFences True ex_reactor)"
  by (simp add: addPresentFence_def Let_def setIgnorePresentFences_def)

text \<open>
  C2, as the code has it: the early return is for a fence whose signal time is INVALID;
  it returns true and leaves the state as it was, whether or not fences are ignored. With
  a limit of at least one, a PENDING fence, while fences are not ignored, goes through the
  drain of the backlog and is appended to what the drain kept (after the oldest kept entry
  has been erased when the kept entries are \<^verbatim>\<open>mPendingLimit\<close> many, and then there is
  one), and the call returns \<^verbatim>\<open>mMoreSamplesNeeded\<close>.
\<close>

theorem addPresentFence_invalid_returns_early_pending_is_queued:
  "(sig f = SIGNAL_TIME_INVALID \<longrightarrow> addPresentFence sig (Some f) s = Inr (True, s)) \<and>
   (sig f = SIGNAL_TIME_PENDING \<and> \<not> mIgnorePresentFences s \<and> 1 \<le> mPendingLimit s \<longrightarrow>
      (let kept = filter (\<lambda>g. sig g = SIGNAL_TIME_PENDING) (mUnfiredFences s);
           tracker = snd (drainUnfiredFences sig (mUnfiredFences s) (mTracker s))
       in addPresentFence sig (Some f) s =
            Inr (mMoreSamplesNeeded s,
                 s\<lparr>mTracker := tracker,
                   mUnfiredFences :=
                     (if mPendingLimit s = length kept then tl kept else kept) @ [f]\<rparr>) \<and>
          (mPendingLimit s = length kept \<longrightarrow> kept \<noteq> [])))"
proof (intro conjI impI)
  assume "sig f = SIGNAL_TIME_INVALID"
  then show "addPresentFence sig (Some f) s = Inr (True, s)"
    by (simp add: addPresentFence_def)
next
  assume a: "sig f = SIGNAL_TIME_PENDING \<and> \<not> mIgnorePresentFences s \<and> 1 \<le> mPendingLimit s"
  have ne: "filter (\<lambda>g. sig g = SIGNAL_TIME_PENDING) (mUnfiredFences s) \<noteq> []"
    if "mPendingLimit s = length (filter (\<lambda>g. sig g = SIGNAL_TIME_PENDING) (mUnfiredFences s))"
    using a that by auto
  show "let kept = filter (\<lambda>g. sig g = SIGNAL_TIME_PENDING) (mUnfiredFences s);
           tracker = snd (drainUnfiredFences sig (mUnfiredFences s) (mTracker s))
       in addPresentFence sig (Some f) s =
            Inr (mMoreSamplesNeeded s,
                 s\<lparr>mTracker := tracker,
                   mUnfiredFences :=
                     (if mPendingLimit s = length kept then tl kept else kept) @ [f]\<rparr>) \<and>
          (mPendingLimit s = length kept \<longrightarrow> kept \<noteq> [])"
    using a ne addPresentFence_pending [of sig f s] by (simp add: Let_def)
qed

theorem addPresentFence_invalid_returns_early_pending_is_queued_witness:
  "ex_invalid 3 = SIGNAL_TIME_INVALID \<and>
   addPresentFence ex_invalid (Some 3) ex_reactor = Inr (True, ex_reactor) \<and>
   ex_pending 3 = SIGNAL_TIME_PENDING \<and> \<not> mIgnorePresentFences ex_reactor \<and>
   1 \<le> mPendingLimit ex_reactor \<and>
   addPresentFence ex_pending (Some 3) ex_reactor
     = Inr (True, ex_reactor\<lparr>mUnfiredFences := [2, 3]\<rparr>)"
proof -
  have h: "ex_invalid 3 = SIGNAL_TIME_INVALID" "ex_pending 3 = SIGNAL_TIME_PENDING"
    "\<not> mIgnorePresentFences ex_reactor" "1 \<le> mPendingLimit ex_reactor"
    by (simp_all add: ex_invalid_def ex_pending_def ex_reactor_def)
  have v: "mUnfiredFences ex_reactor = [1, 2]" "mPendingLimit ex_reactor = 2"
    "mMoreSamplesNeeded ex_reactor" "mTracker ex_reactor = []"
    by (simp_all add: ex_reactor_def)
  have d: "snd (drainUnfiredFences ex_pending [1, 2] []) = []"
    by (simp add: ex_pending_def)
  have t: "ex_reactor\<lparr>mTracker := []\<rparr> = ex_reactor"
    by (simp add: ex_reactor_def)
  show ?thesis
    using addPresentFence_invalid_returns_early_pending_is_queued [of ex_invalid 3 ex_reactor]
      addPresentFence_invalid_returns_early_pending_is_queued [of ex_pending 3 ex_reactor] h
    by (simp add: v d Let_def ex_pending_def t)
qed

text \<open>
  C2 as stated fails: in a reactor at rest with an empty backlog, not ignoring fences, a
  PENDING fence gets the answer false and the backlog holds it afterwards.
\<close>

theorem addPresentFence_pending_counterexample:
  "ex_pending 3 = SIGNAL_TIME_PENDING \<and> \<not> mIgnorePresentFences ex_idle_reactor \<and>
   mUnfiredFences ex_idle_reactor = [] \<and>
   addPresentFence ex_pending (Some 3) ex_idle_reactor
     = Inr (False, ex_idle_reactor\<lparr>mUnfiredFences := [3]\<rparr>)"
  by (simp add: addPresentFence_def Let_def ex_idle_reactor_def ex_pending_def
        pending_not_invalid)

text \<open>
  C4: from a state whose backlog is within \<^verbatim>\<open>mPendingLimit\<close> (the constructed reactor has
  an empty one), after any sequence of \<^verbatim>\<open>addPresentFence\<close> calls the backlog is within
  the limit, and with a limit of at least one every such sequence runs to its end. When a
  PENDING fence arrives and the entries the drain kept are \<^verbatim>\<open>mPendingLimit\<close> many, the
  oldest of them, and only it, is erased and the new fence is appended. With a limit of 2
  and an empty backlog, three fences arriving while all of them are pending leave the
  backlog holding the second and the third, in that order.
\<close>

theorem backlog_bounded_fifo_eviction:
  "(length (mUnfiredFences s) \<le> mPendingLimit s \<and> addPresentFences calls s = Inr s'
      \<longrightarrow> length (mUnfiredFences s') \<le> mPendingLimit s' \<and> mPendingLimit s' = mPendingLimit s) \<and>
   (1 \<le> mPendingLimit s \<longrightarrow> (\<exists>s''. addPresentFences calls s = Inr s'')) \<and>
   (sig f = SIGNAL_TIME_PENDING \<and> \<not> mIgnorePresentFences s
      \<and> length (filter (\<lambda>g. sig g = SIGNAL_TIME_PENDING) (mUnfiredFences s)) = mPendingLimit s
      \<and> 1 \<le> mPendingLimit s
      \<longrightarrow> (\<exists>oldest rest.
            filter (\<lambda>g. sig g = SIGNAL_TIME_PENDING) (mUnfiredFences s) = oldest # rest \<and>
            addPresentFence sig (Some f) s =
              Inr (mMoreSamplesNeeded s,
                   s\<lparr>mTracker := snd (drainUnfiredFences sig (mUnfiredFences s) (mTracker s)),
                     mUnfiredFences := rest @ [f]\<rparr>))) \<and>
   (mPendingLimit s = 2 \<and> mUnfiredFences s = [] \<and> \<not> mIgnorePresentFences s
      \<and> sig1 F1 = SIGNAL_TIME_PENDING
      \<and> sig2 F1 = SIGNAL_TIME_PENDING \<and> sig2 F2 = SIGNAL_TIME_PENDING
      \<and> sig3 F1 = SIGNAL_TIME_PENDING \<and> sig3 F2 = SIGNAL_TIME_PENDING
      \<and> sig3 F3 = SIGNAL_TIME_PENDING
      \<longrightarrow> addPresentFences [(sig1, Some F1), (sig2, Some F2), (sig3, Some F3)] s
            = Inr (s\<lparr>mUnfiredFences := [F2, F3]\<rparr>))"
proof (intro conjI impI)
  assume "length (mUnfiredFences s) \<le> mPendingLimit s \<and> addPresentFences calls s = Inr s'"
  then show "length (mUnfiredFences s') \<le> mPendingLimit s'"
    "mPendingLimit s' = mPendingLimit s"
    using addPresentFences_limit [of s calls s'] by simp_all
next
  assume "1 \<le> mPendingLimit s"
  then show "\<exists>s''. addPresentFences calls s = Inr s''"
    by (rule addPresentFences_returns)
next
  assume a: "sig f = SIGNAL_TIME_PENDING \<and> \<not> mIgnorePresentFences s
      \<and> length (filter (\<lambda>g. sig g = SIGNAL_TIME_PENDING) (mUnfiredFences s)) = mPendingLimit s
      \<and> 1 \<le> mPendingLimit s"
  then obtain oldest rest
    where k: "filter (\<lambda>g. sig g = SIGNAL_TIME_PENDING) (mUnfiredFences s) = oldest # rest"
    by (cases "filter (\<lambda>g. sig g = SIGNAL_TIME_PENDING) (mUnfiredFences s)") auto
  have "addPresentFence sig (Some f) s =
      Inr (mMoreSamplesNeeded s,
           s\<lparr>mTracker := snd (drainUnfiredFences sig (mUnfiredFences s) (mTracker s)),
             mUnfiredFences := rest @ [f]\<rparr>)"
    using a k addPresentFence_pending [of sig f s] by (simp add: Let_def)
  with k show "\<exists>oldest rest.
            filter (\<lambda>g. sig g = SIGNAL_TIME_PENDING) (mUnfiredFences s) = oldest # rest \<and>
            addPresentFence sig (Some f) s =
              Inr (mMoreSamplesNeeded s,
                   s\<lparr>mTracker := snd (drainUnfiredFences sig (mUnfiredFences s) (mTracker s)),
                     mUnfiredFences := rest @ [f]\<rparr>)"
    by blast
next
  assume a: "mPendingLimit s = 2 \<and> mUnfiredFences s = [] \<and> \<not> mIgnorePresentFences s
      \<and> sig1 F1 = SIGNAL_TIME_PENDING
      \<and> sig2 F1 = SIGNAL_TIME_PENDING \<and> sig2 F2 = SIGNAL_TIME_PENDING
      \<and> sig3 F1 = SIGNAL_TIME_PENDING \<and> sig3 F2 = SIGNAL_TIME_PENDING
      \<and> sig3 F3 = SIGNAL_TIME_PENDING"
  have 1: "addPresentFence sig1 (Some F1) s
      = Inr (mMoreSamplesNeeded s, s\<lparr>mUnfiredFences := [F1]\<rparr>)"
    using a by (simp add: addPresentFence_pending Let_def)
  have 2: "addPresentFence sig2 (Some F2) (s\<lparr>mUnfiredFences := [F1]\<rparr>)
      = Inr (mMoreSamplesNeeded s, s\<lparr>mUnfiredFences := [F1, F2]\<rparr>)"
    using a by (simp add: addPresentFence_pending Let_def)
  have 3: "addPresentFence sig3 (Some F3) (s\<lparr>mUnfiredFences := [F1, F2]\<rparr>)
      = Inr (mMoreSamplesNeeded s, s\<lparr>mUnfiredFences := [F2, F3]\<rparr>)"
    using a by (simp add: addPresentFence_pending Let_def)
  show "addPresentFences [(sig1, Some F1), (sig2, Some F2), (sig3, Some F3)] s
            = Inr (s\<lparr>mUnfiredFences := [F2, F3]\<rparr>)"
    by (simp add: 1 2 3)
qed

theorem backlog_bounded_fifo_eviction_witness:
  "mPendingLimit ex_idle_reactor = 2 \<and> mUnfiredFences ex_idle_reactor = [] \<and>
   \<not> mIgnorePresentFences ex_idle_reactor \<and> ex_pending 1 = SIGNAL_TIME_PENDING \<and>
   addPresentFences [(ex_pending, Some 1), (ex_pending, Some 2), (ex_pending, Some 3)]
       ex_idle_reactor
     = Inr (ex_idle_reactor\<lparr>mUnfiredFences := [2, 3]\<rparr>) \<and>
   length (mUnfiredFences (ex_idle_reactor\<lparr>mUnfiredFences := [2, 3]\<rparr>))
     \<le> mPendingLimit (ex_idle_reactor\<lparr>mUnfiredFences := [2, 3]\<rparr>) \<and>
   addPresentFence ex_pending (Some 3) ex_reactor
     = Inr (True, ex_reactor\<lparr>mUnfiredFences := [2, 3]\<rparr>)"
proof -
  have h: "mPendingLimit ex_idle_reactor = 2" "mUnfiredFences ex_idle_reactor = []"
    "\<not> mIgnorePresentFences ex_idle_reactor" "\<And>g. ex_pending g = SIGNAL_TIME_PENDING"
    by (simp_all add: ex_idle_reactor_def ex_pending_def)
  have run: "addPresentFences [(ex_pending, Some 1), (ex_pending, Some 2), (ex_pending, Some 3)]
       ex_idle_reactor
     = Inr (ex_idle_reactor\<lparr>mUnfiredFences := [2, 3]\<rparr>)"
    using backlog_bounded_fifo_eviction
            [where s = ex_idle_reactor and calls = "[]" and s' = ex_idle_reactor
               and sig = ex_pending and f = 1 and ?sig1.0 = ex_pending and ?F1.0 = 1
               and ?sig2.0 = ex_pending and ?F2.0 = 2 and ?sig3.0 = ex_pending and ?F3.0 = 3] h
    by simp
  have g: "\<not> mIgnorePresentFences ex_reactor"
    "filter (\<lambda>g. ex_pending g = SIGNAL_TIME_PENDING) (mUnfiredFences ex_reactor) = [1, 2]"
    "mPendingLimit ex_reactor = 2" "mMoreSamplesNeeded ex_reactor"
    "snd (drainUnfiredFences ex_pending (mUnfiredFences ex_reactor) (mTracker ex_reactor)) = []"
    "ex_reactor\<lparr>mTracker := []\<rparr> = ex_reactor"
    by (simp_all add: ex_reactor_def ex_pending_def)
  have evict: "addPresentFence ex_pending (Some 3) ex_reactor
     = Inr (True, ex_reactor\<lparr>mUnfiredFences := [2, 3]\<rparr>)"
    using backlog_bounded_fifo_eviction
            [where s = ex_reactor and calls = "[]" and s' = ex_reactor
               and sig = ex_pending and f = 3 and ?sig1.0 = ex_pending and ?F1.0 = 1
               and ?sig2.0 = ex_pending and ?F2.0 = 2 and ?sig3.0 = ex_pending and ?F3.0 = 3] h(4) g
    by simp
  have bound: "length (mUnfiredFences (ex_idle_reactor\<lparr>mUnfiredFences := [2, 3]\<rparr>))
     \<le> mPendingLimit (ex_idle_reactor\<lparr>mUnfiredFences := [2, 3]\<rparr>)"
    using backlog_bounded_fifo_eviction
            [where s = ex_idle_reactor
               and calls = "[(ex_pending, Some 1), (ex_pending, Some 2), (ex_pending, Some 3)]"
               and s' = "ex_idle_reactor\<lparr>mUnfiredFences := [2, 3]\<rparr>"
               and sig = ex_pending and f = 1 and ?sig1.0 = ex_pending and ?F1.0 = 1
               and ?sig2.0 = ex_pending and ?F2.0 = 2 and ?sig3.0 = ex_pending and ?F3.0 = 3]
          h(1, 2) run
    by simp
  show ?thesis using h run bound evict by simp
qed

text \<open>
  C10: with a limit of at least one, whenever the entries the drain kept are
  \<^verbatim>\<open>mPendingLimit\<close> many they are not none, so \<^verbatim>\<open>erase(begin())\<close> is never applied to an
  empty vector and every call of \<^verbatim>\<open>addPresentFence\<close> returns. The limit is needed: with a
  limit of 0 and an empty backlog, a PENDING fence reaches the erasure of an empty vector.
\<close>

theorem eviction_never_on_empty_backlog:
  "(1 \<le> mPendingLimit s \<longrightarrow>
      (mPendingLimit s = length (fst (drainUnfiredFences sig (mUnfiredFences s) (mTracker s)))
         \<longrightarrow> fst (drainUnfiredFences sig (mUnfiredFences s) (mTracker s)) \<noteq> []) \<and>
      addPresentFence sig fence s \<noteq> Inl EraseFromEmptyBacklog \<and>
      (\<exists>r. addPresentFence sig fence s = Inr r)) \<and>
   (mPendingLimit s = 0 \<and> mUnfiredFences s = [] \<and> \<not> mIgnorePresentFences s
      \<and> sig f = SIGNAL_TIME_PENDING
      \<longrightarrow> addPresentFence sig (Some f) s = Inl EraseFromEmptyBacklog)"
proof (intro conjI impI)
  assume l: "1 \<le> mPendingLimit s"
  show "\<exists>r. addPresentFence sig fence s = Inr r"
    using l by (rule addPresentFence_returns)
  then show "addPresentFence sig fence s \<noteq> Inl EraseFromEmptyBacklog" by auto
  assume "mPendingLimit s = length (fst (drainUnfiredFences sig (mUnfiredFences s) (mTracker s)))"
  with l show "fst (drainUnfiredFences sig (mUnfiredFences s) (mTracker s)) \<noteq> []" by auto
next
  assume "mPendingLimit s = 0 \<and> mUnfiredFences s = [] \<and> \<not> mIgnorePresentFences s
      \<and> sig f = SIGNAL_TIME_PENDING"
  then show "addPresentFence sig (Some f) s = Inl EraseFromEmptyBacklog"
    by (simp add: addPresentFence_pending Let_def)
qed

theorem eviction_never_on_empty_backlog_witness:
  "1 \<le> mPendingLimit ex_reactor \<and>
   mPendingLimit ex_reactor
     = length (fst (drainUnfiredFences ex_pending (mUnfiredFences ex_reactor) (mTracker ex_reactor))) \<and>
   fst (drainUnfiredFences ex_pending (mUnfiredFences ex_reactor) (mTracker ex_reactor)) \<noteq> [] \<and>
   addPresentFence ex_pending (Some 3) ex_reactor \<noteq> Inl EraseFromEmptyBacklog \<and>
   mPendingLimit (ex_idle_reactor\<lparr>mPendingLimit := 0\<rparr>) = 0 \<and>
   mUnfiredFences (ex_idle_reactor\<lparr>mPendingLimit := 0\<rparr>) = [] \<and>
   \<not> mIgnorePresentFences (ex_idle_reactor\<lparr>mPendingLimit := 0\<rparr>) \<and>
   ex_pending 3 = SIGNAL_TIME_PENDING \<and>
   addPresentFence ex_pending (Some 3) (ex_idle_reactor\<lparr>mPendingLimit := 0\<rparr>)
     = Inl EraseFromEmptyBacklog"
proof -
  have h: "1 \<le> mPendingLimit ex_reactor"
    "mPendingLimit ex_reactor
       = length (fst (drainUnfiredFences ex_pending (mUnfiredFences ex_reactor) (mTracker ex_reactor)))"
    by (simp_all add: ex_reactor_def ex_pending_def)
  have z: "mPendingLimit (ex_idle_reactor\<lparr>mPendingLimit := 0\<rparr>) = 0"
    "mUnfiredFences (ex_idle_reactor\<lparr>mPendingLimit := 0\<rparr>) = []"
    "\<not> mIgnorePresentFences (ex_idle_reactor\<lparr>mPendingLimit := 0\<rparr>)"
    "ex_pending 3 = SIGNAL_TIME_PENDING"
    by (simp_all add: ex_idle_reactor_def ex_pending_def)
  show ?thesis
    using eviction_never_on_empty_backlog
            [where s = ex_reactor and sig = ex_pending and fence = "Some 3" and f = 3]
      eviction_never_on_empty_backlog
            [where s = "ex_idle_reactor\<lparr>mPendingLimit := 0\<rparr>" and sig = ex_pending
               and fence = "Some 3" and f = 3]
      h z
    by simp
qed

subsection \<open>Listeners\<close>

text \<open>
  C6: when \<^verbatim>\<open>mCallbacks\<close> holds three entries (or more) and none for the callback,
  \<^verbatim>\<open>addEventListener\<close> returns \<^verbatim>\<open>NO_MEMORY\<close> and the state is the state before the call:
  no repeater was made, the map and its repeaters, the dispatcher and the tracker are as
  they were.
\<close>

theorem addEventListener_fourth_listener_rejected:
  assumes "3 \<le> length (mCallbacks s)" and "map_of (mCallbacks s) cb = None"
  shows "addEventListener cp sched now name phase cb s = Inr (NO_MEMORY, s)"
  using assms by (simp add: addEventListener_def)

theorem addEventListener_fourth_listener_rejected_witness:
  "3 \<le> length (mCallbacks ex_full_reactor) \<and> distinct (map fst (mCallbacks ex_full_reactor)) \<and>
   map_of (mCallbacks ex_full_reactor) 10 = None \<and>
   addEventListener ex_currentPeriod ex_sched 2000 ''app'' 4000000 10 ex_full_reactor
     = Inr (NO_MEMORY, ex_full_reactor)"
proof -
  have h: "3 \<le> length (mCallbacks ex_full_reactor)"
    "map_of (mCallbacks ex_full_reactor) 10 = None"
    "distinct (map fst (mCallbacks ex_full_reactor))"
    by (simp_all add: ex_full_reactor_def)
  show ?thesis
    using addEventListener_fourth_listener_rejected
            [OF h(1) h(2), of ex_currentPeriod ex_sched 2000 "''app''" 4000000] h
    by simp
qed

lemma removeEventListener_Inr:
  assumes "removeEventListener cb s = Inr r"
  shows "\<exists>rep. map_of (mCallbacks s) cb = Some rep \<and> \<not> mStopped rep \<and>
     r = (NO_ERROR,
          s\<lparr>mDispatch := mDispatch s @ [Cancel (mCallback rep)],
            mCallbacks := AList.update cb (rep\<lparr>mStopped := True\<rparr>) (mCallbacks s)\<rparr>)"
  using assms
  by (auto simp add: removeEventListener_def CallbackRepeater_stop_def
        split: option.splits if_splits)

lemma map_of_Some_key: "map_of al k = Some v \<Longrightarrow> k \<in> set (map fst al)"
  by (induction al) (auto split: if_splits)

text \<open>
  C8: when \<^verbatim>\<open>removeEventListener\<close> has returned for a callback, the next
  \<^verbatim>\<open>removeEventListener\<close> for it, on the state the first one left, aborts (the repeater
  is already stopped); and \<^verbatim>\<open>removeEventListener\<close> for a callback with no entry in
  \<^verbatim>\<open>mCallbacks\<close> aborts. Neither returns a status.
\<close>

theorem removeEventListener_twice_is_fatal:
  "(removeEventListener cb s = Inr r \<longrightarrow>
      removeEventListener cb (snd r) = Inl CallbackAlreadyStopped) \<and>
   (map_of (mCallbacks s) cb = None \<longrightarrow> removeEventListener cb s = Inl CallbackNotRegistered)"
proof (intro conjI impI)
  assume "removeEventListener cb s = Inr r"
  then obtain rep where "r = (NO_ERROR,
          s\<lparr>mDispatch := mDispatch s @ [Cancel (mCallback rep)],
            mCallbacks := AList.update cb (rep\<lparr>mStopped := True\<rparr>) (mCallbacks s)\<rparr>)"
    using removeEventListener_Inr by blast
  then show "removeEventListener cb (snd r) = Inl CallbackAlreadyStopped"
    by (simp add: removeEventListener_def CallbackRepeater_stop_def update_conv')
next
  assume "map_of (mCallbacks s) cb = None"
  then show "removeEventListener cb s = Inl CallbackNotRegistered"
    by (simp add: removeEventListener_def)
qed

theorem removeEventListener_twice_is_fatal_witness:
  "removeEventListener 7 ex_reactor =
     Inr (NO_ERROR, ex_reactor\<lparr>mDispatch := [Cancel 7], mCallbacks := [(7, ex_repeater 7 True)]\<rparr>) \<and>
   removeEventListener 7
       (ex_reactor\<lparr>mDispatch := [Cancel 7], mCallbacks := [(7, ex_repeater 7 True)]\<rparr>)
     = Inl CallbackAlreadyStopped \<and>
   map_of (mCallbacks ex_reactor) 42 = None \<and>
   removeEventListener 42 ex_reactor = Inl CallbackNotRegistered"
proof -
  have first: "removeEventListener 7 ex_reactor =
     Inr (NO_ERROR, ex_reactor\<lparr>mDispatch := [Cancel 7], mCallbacks := [(7, ex_repeater 7 True)]\<rparr>)"
    by (simp add: removeEventListener_def CallbackRepeater_stop_def ex_reactor_def
          ex_repeater_def)
  have none: "map_of (mCallbacks ex_reactor) 42 = None"
    by (simp add: ex_reactor_def)
  show ?thesis
    using removeEventListener_twice_is_fatal
            [where cb = 7 and s = ex_reactor
               and r = "(NO_ERROR,
                         ex_reactor\<lparr>mDispatch := [Cancel 7],
                                    mCallbacks := [(7, ex_repeater 7 True)]\<rparr>)"]
      removeEventListener_twice_is_fatal
            [where cb = 42 and s = ex_reactor
               and r = "(NO_ERROR, ex_reactor)"]
      first none
    by simp
qed

text \<open>
  C9: when \<^verbatim>\<open>removeEventListener\<close> returns, the entry of the callback is still in
  \<^verbatim>\<open>mCallbacks\<close>, now with a stopped repeater: the keys and the size of the map are the
  same, so that with three entries a further, unseen callback is still refused with
  \<^verbatim>\<open>NO_MEMORY\<close>. \<^verbatim>\<open>addEventListener\<close> for the removed callback then starts the repeater
  that is there: its period and its last call time are the old ones (not the tracker's
  period and the clock's reading a new repeater would get), it is running at the new
  phase, and the dispatcher receives a scheduling request and no registration.
\<close>

theorem removeEventListener_keeps_entry:
  assumes rm: "removeEventListener cb s = Inr r"
  shows "\<exists>rep. map_of (mCallbacks s) cb = Some rep \<and> \<not> mStopped rep \<and>
     fst r = NO_ERROR \<and>
     map fst (mCallbacks (snd r)) = map fst (mCallbacks s) \<and>
     length (mCallbacks (snd r)) = length (mCallbacks s) \<and>
     map_of (mCallbacks (snd r)) = (map_of (mCallbacks s))(cb \<mapsto> rep\<lparr>mStopped := True\<rparr>) \<and>
     mDispatch (snd r) = mDispatch s @ [Cancel (mCallback rep)] \<and>
     (3 \<le> length (mCallbacks s) \<and> map_of (mCallbacks s) other = None \<longrightarrow>
        addEventListener cp sched now name phase other (snd r) = Inr (NO_MEMORY, snd r)) \<and>
     addEventListener cp sched now name phase cb (snd r) =
       (if sched (mDispatch (snd r)
                   @ [Schedule (mCallback rep) (mPeriod rep - phase) (mLastCallTime rep)])
             = Scheduled
        then Inr (NO_ERROR,
               (snd r)\<lparr>mDispatch := mDispatch (snd r)
                           @ [Schedule (mCallback rep) (mPeriod rep - phase) (mLastCallTime rep)],
                        mCallbacks := AList.update cb (rep\<lparr>mStopped := False, mOffset := phase\<rparr>)
                                         (mCallbacks s)\<rparr>)
        else Inl ErrorSchedulingCallback)"
proof -
  from removeEventListener_Inr [OF rm] obtain rep where
    look: "map_of (mCallbacks s) cb = Some rep" and run: "\<not> mStopped rep" and
    r: "r = (NO_ERROR,
          s\<lparr>mDispatch := mDispatch s @ [Cancel (mCallback rep)],
            mCallbacks := AList.update cb (rep\<lparr>mStopped := True\<rparr>) (mCallbacks s)\<rparr>)"
    by blast
  have key: "cb \<in> set (map fst (mCallbacks s))" using look by (rule map_of_Some_key)
  have keys: "map fst (mCallbacks (snd r)) = map fst (mCallbacks s)"
    using key by (simp add: r update_keys)
  have len: "length (mCallbacks (snd r)) = length (mCallbacks s)"
    using keys by (metis length_map)
  have mp: "map_of (mCallbacks (snd r)) = (map_of (mCallbacks s))(cb \<mapsto> rep\<lparr>mStopped := True\<rparr>)"
    by (simp add: r update_conv')
  have other: "addEventListener cp sched now name phase other (snd r) = Inr (NO_MEMORY, snd r)"
    if "3 \<le> length (mCallbacks s)" "map_of (mCallbacks s) other = None"
  proof -
    have "other \<noteq> cb" using that(2) look by auto
    then have "map_of (mCallbacks (snd r)) other = None" using that(2) by (simp add: mp)
    then show ?thesis using that(1) len by (simp add: addEventListener_def)
  qed
  have again: "addEventListener cp sched now name phase cb (snd r) =
       (if sched (mDispatch (snd r)
                   @ [Schedule (mCallback rep) (mPeriod rep - phase) (mLastCallTime rep)])
             = Scheduled
        then Inr (NO_ERROR,
               (snd r)\<lparr>mDispatch := mDispatch (snd r)
                           @ [Schedule (mCallback rep) (mPeriod rep - phase) (mLastCallTime rep)],
                        mCallbacks := AList.update cb (rep\<lparr>mStopped := False, mOffset := phase\<rparr>)
                                         (mCallbacks s)\<rparr>)
        else Inl ErrorSchedulingCallback)"
  proof -
    have "map_of (mCallbacks (snd r)) cb = Some (rep\<lparr>mStopped := True\<rparr>)"
      by (simp add: mp)
    then have "addEventListener cp sched now name phase cb (snd r)
        = startEntry sched phase cb (rep\<lparr>mStopped := True\<rparr>) (snd r)"
      by (simp add: addEventListener_def)
    then show ?thesis
      by (simp add: startEntry_def CallbackRepeater_start_def Let_def calculateWorkload_def r)
  qed
  show ?thesis
    using look run keys len mp other again by (auto simp add: r)
qed

theorem removeEventListener_keeps_entry_witness:
  "removeEventListener 7 ex_full_reactor =
     Inr (NO_ERROR,
          ex_full_reactor\<lparr>mDispatch := [Cancel 7],
            mCallbacks := [(7, ex_repeater 7 True), (8, ex_repeater 8 True),
                           (9, ex_repeater 9 False)]\<rparr>) \<and>
   addEventListener ex_currentPeriod ex_sched 2000 ''sf'' 6000000 10
       (ex_full_reactor\<lparr>mDispatch := [Cancel 7],
          mCallbacks := [(7, ex_repeater 7 True), (8, ex_repeater 8 True),
                         (9, ex_repeater 9 False)]\<rparr>)
     = Inr (NO_MEMORY,
            ex_full_reactor\<lparr>mDispatch := [Cancel 7],
              mCallbacks := [(7, ex_repeater 7 True), (8, ex_repeater 8 True),
                             (9, ex_repeater 9 False)]\<rparr>) \<and>
   addEventListener ex_currentPeriod ex_sched 2000 ''sf'' 6000000 7
       (ex_full_reactor\<lparr>mDispatch := [Cancel 7],
          mCallbacks := [(7, ex_repeater 7 True), (8, ex_repeater 8 True),
                         (9, ex_repeater 9 False)]\<rparr>)
     = Inr (NO_ERROR,
            ex_full_reactor\<lparr>mDispatch := [Cancel 7, Schedule 7 10666666 1000],
              mCallbacks := [(7, (ex_repeater 7 False)\<lparr>mOffset := 6000000\<rparr>),
                             (8, ex_repeater 8 True), (9, ex_repeater 9 False)]\<rparr>)"
proof -
  have first: "removeEventListener 7 ex_full_reactor =
     Inr (NO_ERROR,
          ex_full_reactor\<lparr>mDispatch := [Cancel 7],
            mCallbacks := [(7, ex_repeater 7 True), (8, ex_repeater 8 True),
                           (9, ex_repeater 9 False)]\<rparr>)"
    by (simp add: removeEventListener_def CallbackRepeater_stop_def ex_full_reactor_def
          ex_repeater_def)
  have full: "3 \<le> length (mCallbacks ex_full_reactor)"
    "map_of (mCallbacks ex_full_reactor) 10 = None"
    by (simp_all add: ex_full_reactor_def)
  from removeEventListener_keeps_entry
         [OF first, where other = 10 and cp = ex_currentPeriod and sched = ex_sched
            and now = 2000 and name = "''sf''" and phase = 6000000]
  obtain rep where rep: "map_of (mCallbacks ex_full_reactor) 7 = Some rep"
    and other: "addEventListener ex_currentPeriod ex_sched 2000 ''sf'' 6000000 10
       (ex_full_reactor\<lparr>mDispatch := [Cancel 7],
          mCallbacks := [(7, ex_repeater 7 True), (8, ex_repeater 8 True),
                         (9, ex_repeater 9 False)]\<rparr>)
     = Inr (NO_MEMORY,
            ex_full_reactor\<lparr>mDispatch := [Cancel 7],
              mCallbacks := [(7, ex_repeater 7 True), (8, ex_repeater 8 True),
                             (9, ex_repeater 9 False)]\<rparr>)"
    and again: "addEventListener ex_currentPeriod ex_sched 2000 ''sf'' 6000000 7
       (ex_full_reactor\<lparr>mDispatch := [Cancel 7],
          mCallbacks := [(7, ex_repeater 7 True), (8, ex_repeater 8 True),
                         (9, ex_repeater 9 False)]\<rparr>)
     = Inr (NO_ERROR,
            ex_full_reactor\<lparr>mDispatch := [Cancel 7, Schedule (mCallback rep) (mPeriod rep - 6000000)
                                                      (mLastCallTime rep)],
              mCallbacks := AList.update 7 (rep\<lparr>mStopped := False, mOffset := 6000000\<rparr>)
                              (mCallbacks ex_full_reactor)\<rparr>)"
    using full by (auto simp add: ex_sched_def)
  have "rep = ex_repeater 7 False"
    using rep by (simp add: ex_full_reactor_def)
  then have again': "addEventListener ex_currentPeriod ex_sched 2000 ''sf'' 6000000 7
       (ex_full_reactor\<lparr>mDispatch := [Cancel 7],
          mCallbacks := [(7, ex_repeater 7 True), (8, ex_repeater 8 True),
                         (9, ex_repeater 9 False)]\<rparr>)
     = Inr (NO_ERROR,
            ex_full_reactor\<lparr>mDispatch := [Cancel 7, Schedule 7 10666666 1000],
              mCallbacks := [(7, (ex_repeater 7 False)\<lparr>mOffset := 6000000\<rparr>),
                             (8, ex_repeater 8 True), (9, ex_repeater 9 False)]\<rparr>)"
    using again by (simp add: ex_full_reactor_def ex_repeater_def)
  show ?thesis using first other again' by simp
qed

end
